theory Spec2Isabelle
  imports Complex_Main
begin

section \<open>Aim trainer: target spawning and hit resolution\<close>

text \<open>
  A shallow embedding of the target manager (\<^verbatim>\<open>TargetManager.jsx\<close>), the target entity
  (\<^verbatim>\<open>Target.jsx\<close>), the shooting path of \<^verbatim>\<open>Player.jsx\<close> and the hit handler of
  \<^verbatim>\<open>App.jsx\<close>.

  JavaScript numbers are modelled as real numbers (rounding of IEEE doubles is not
  modelled). \<^verbatim>\<open>Math.random()\<close> is an oracle \<open>rnd :: nat \<Rightarrow> real\<close>: \<open>rnd k\<close> is the value
  returned by the \<open>k\<close>-th call, and every function that draws random numbers takes the
  number \<open>k\<close> of calls made so far and returns the number made afterwards.
  \<^verbatim>\<open>Date.now()\<close> is an argument \<open>now\<close> of the function that reads it; a handler or an
  effect that reads it several times (once per new target) is given one reading. The
  reading only enters the ids of new targets.
\<close>

subsection \<open>Data\<close>

text \<open>A position is the JavaScript array \<^verbatim>\<open>[x, y, z]\<close>.\<close>

type_synonym vec3 = "real \<times> real \<times> real"

text \<open>A live target \<^verbatim>\<open>{ id, position }\<close>; the field \<^verbatim>\<open>id\<close> is named \<open>id_t\<close> here.\<close>

record target =
  id_t :: real
  position :: vec3

datatype game_mode = Normal | Random_size | Strafing | Pulse

subsection \<open>Position generator\<close>

definition MIN_DISTANCE :: real where
  "MIN_DISTANCE = 2.5"

definition MAX_ATTEMPTS :: nat where
  "MAX_ATTEMPTS = 20"

text \<open>
  The candidate drawn when \<open>k\<close> calls of \<^verbatim>\<open>Math.random()\<close> have been made: it consumes the
  draws \<open>k\<close> and \<open>k + 1\<close>.
\<close>

definition candidate :: "(nat \<Rightarrow> real) \<Rightarrow> nat \<Rightarrow> vec3" where
  "candidate rnd k = (rnd k * 6 - 3, rnd (k + 1) * 3 + 1.5, 8)"

text \<open>\<^verbatim>\<open>Math.sqrt(dx * dx + dy * dy + dz * dz)\<close> of the loop body.\<close>

fun distance :: "vec3 \<Rightarrow> vec3 \<Rightarrow> real" where
  "distance (cx, cy, cz) (tx, ty, tz) =
     (let dx = cx - tx; dy = cy - ty; dz = cz - tz
      in sqrt (dx * dx + dy * dy + dz * dz))"

text \<open>
  The inner \<^verbatim>\<open>for (const target of existingTargets)\<close> loop, which sets \<^verbatim>\<open>tooClose\<close> and
  breaks at the first target nearer than \<open>MIN_DISTANCE\<close>.
\<close>

fun tooClose :: "vec3 \<Rightarrow> target list \<Rightarrow> bool" where
  "tooClose c [] = False"
| "tooClose c (t # ts) =
     (if distance c (position t) < MIN_DISTANCE then True else tooClose c ts)"

text \<open>
  The \<^verbatim>\<open>while (!isValid && attempts < MAX_ATTEMPTS)\<close> loop. The variables \<^verbatim>\<open>position\<close> and
  \<^verbatim>\<open>isValid\<close> are only assigned together (\<^verbatim>\<open>position = candidate; isValid = true\<close>), so
  the pair is one option: \<open>None\<close> is \<^verbatim>\<open>position = null, isValid = false\<close> and \<open>Some p\<close> is
  \<^verbatim>\<open>position = p, isValid = true\<close>. The loop state is that option, \<^verbatim>\<open>attempts\<close> and the
  number of random draws made.
\<close>

function attemptLoop ::
  "(nat \<Rightarrow> real) \<Rightarrow> target list \<Rightarrow> vec3 option \<Rightarrow> nat \<Rightarrow> nat \<Rightarrow> vec3 option \<times> nat \<times> nat" where
  "attemptLoop rnd existingTargets found attempts k =
     (if found = None \<and> attempts < MAX_ATTEMPTS then
        (if \<not> tooClose (candidate rnd k) existingTargets
         then attemptLoop rnd existingTargets (Some (candidate rnd k)) (attempts + 1) (k + 2)
         else attemptLoop rnd existingTargets found (attempts + 1) (k + 2))
      else (found, attempts, k))"
  by pat_completeness auto
termination
  by (relation "measure (\<lambda>(rnd, existingTargets, found, attempts, k). MAX_ATTEMPTS - attempts)") auto

declare attemptLoop.simps [simp del]

text \<open>
  The result of \<^verbatim>\<open>generateRandomPosition(existingTargets)\<close>: the returned position, whether
  the loop ended with \<^verbatim>\<open>isValid\<close> true (the position was accepted within the cap), and the
  number of random draws made when it returns. Only \<open>g_position\<close> is the JavaScript return
  value; the other two fields are there so that statements can speak about the run.
\<close>

record gen_result =
  g_position :: vec3
  g_isValid :: bool
  g_next :: nat

definition generateRandomPosition ::
  "(nat \<Rightarrow> real) \<Rightarrow> target list \<Rightarrow> nat \<Rightarrow> gen_result" where
  "generateRandomPosition rnd existingTargets k =
     (case attemptLoop rnd existingTargets None 0 k of
        (None, attempts, k') \<Rightarrow>
          \<lparr>g_position = (rnd k' * 6 - 3, rnd (k' + 1) * 3 + 1.5, 8),
           g_isValid = False, g_next = k' + 2\<rparr>
      | (Some p, attempts, k') \<Rightarrow>
          \<lparr>g_position = p, g_isValid = True, g_next = k'\<rparr>)"

subsection \<open>Target manager\<close>

text \<open>\<^verbatim>\<open>(gameMode === 'random_size' || gameMode === 'pulse') ? 5 : 3\<close>\<close>

definition spawnCount :: "game_mode \<Rightarrow> nat" where
  "spawnCount gameMode = (if gameMode = Random_size \<or> gameMode = Pulse then 5 else 3)"

text \<open>
  The updater that \<^verbatim>\<open>handleTargetHit(targetId)\<close> passes to \<^verbatim>\<open>setTargets\<close>, applied to the
  current list \<open>prev\<close>. The new target's id \<^verbatim>\<open>Date.now() + Math.random()\<close> is evaluated
  before its position, so it takes draw \<open>k\<close> and the generator starts at \<open>k + 1\<close>. The result
  is the new list and the number of random draws made.
\<close>

definition handleTargetHit ::
  "(nat \<Rightarrow> real) \<Rightarrow> real \<Rightarrow> real \<Rightarrow> target list \<Rightarrow> nat \<Rightarrow> target list \<times> nat" where
  "handleTargetHit rnd now targetId prev k =
     (let targetExists = list_ex (\<lambda>target. id_t target = targetId) prev in
      if \<not> targetExists then (prev, k)
      else
        let remaining = filter (\<lambda>target. id_t target \<noteq> targetId) prev;
            g = generateRandomPosition rnd remaining (k + 1);
            newTarget = \<lparr>id_t = now + rnd k, position = g_position g\<rparr>
        in (remaining @ [newTarget], g_next g))"

text \<open>The updater of \<^verbatim>\<open>handleTargetTimeout(targetId)\<close>; the source repeats the same body.\<close>

definition handleTargetTimeout ::
  "(nat \<Rightarrow> real) \<Rightarrow> real \<Rightarrow> real \<Rightarrow> target list \<Rightarrow> nat \<Rightarrow> target list \<times> nat" where
  "handleTargetTimeout rnd now targetId prev k =
     (let targetExists = list_ex (\<lambda>target. id_t target = targetId) prev in
      if \<not> targetExists then (prev, k)
      else
        let remaining = filter (\<lambda>target. id_t target \<noteq> targetId) prev;
            g = generateRandomPosition rnd remaining (k + 1);
            newTarget = \<lparr>id_t = now + rnd k, position = g_position g\<rparr>
        in (remaining @ [newTarget], g_next g))"

text \<open>
  The batch loop of the mode-change effect for the modes other than pulse:
  \<^verbatim>\<open>for (let i = 0; i < spawnCount; i++) { ...; initialTargets.push(newTarget) }\<close>.
\<close>

function batchLoop ::
  "(nat \<Rightarrow> real) \<Rightarrow> real \<Rightarrow> nat \<Rightarrow> nat \<Rightarrow> target list \<Rightarrow> nat \<Rightarrow> target list \<times> nat" where
  "batchLoop rnd now count i initialTargets k =
     (if i < count then
        let g = generateRandomPosition rnd initialTargets (k + 1);
            newTarget = \<lparr>id_t = now + rnd k + real i, position = g_position g\<rparr>
        in batchLoop rnd now count (i + 1) (initialTargets @ [newTarget]) (g_next g)
      else (initialTargets, k))"
  by pat_completeness auto
termination
  by (relation "measure (\<lambda>(rnd, now, count, i, initialTargets, k). count - i)") auto

declare batchLoop.simps [simp del]

text \<open>
  Whether every call of the generator made by the batch loop ended with \<^verbatim>\<open>isValid\<close> true.
  It follows the recursion of \<open>batchLoop\<close> step by step.
\<close>

function batchAccepted ::
  "(nat \<Rightarrow> real) \<Rightarrow> real \<Rightarrow> nat \<Rightarrow> nat \<Rightarrow> target list \<Rightarrow> nat \<Rightarrow> bool" where
  "batchAccepted rnd now count i initialTargets k =
     (if i < count then
        let g = generateRandomPosition rnd initialTargets (k + 1);
            newTarget = \<lparr>id_t = now + rnd k + real i, position = g_position g\<rparr>
        in g_isValid g \<and> batchAccepted rnd now count (i + 1) (initialTargets @ [newTarget]) (g_next g)
      else True)"
  by pat_completeness auto
termination
  by (relation "measure (\<lambda>(rnd, now, count, i, initialTargets, k). count - i)") auto

declare batchAccepted.simps [simp del]

text \<open>
  The state of the mounted manager: the \<^verbatim>\<open>targets\<close> state variable, the callbacks that the
  staggered spawn has passed to \<^verbatim>\<open>setTimeout\<close> and that have not run yet (the time in
  milliseconds at which each is due, and its loop index \<^verbatim>\<open>i\<close>), and the number of random
  draws made so far. No code of the manager ever cancels a timer.
\<close>

record manager =
  targets :: "target list"
  timers :: "(nat \<times> nat) list"
  draws :: nat

text \<open>
  The callback of the staggered spawn with loop index \<open>i\<close>, run at time \<open>now\<close>: its updater
  appends one target, placed against the list \<open>prev\<close> it is applied to.
\<close>

definition staggerSpawn :: "(nat \<Rightarrow> real) \<Rightarrow> nat \<Rightarrow> nat \<Rightarrow> manager \<Rightarrow> manager" where
  "staggerSpawn rnd now i s =
     (let prev = targets s;
          g = generateRandomPosition rnd prev (draws s + 1);
          newTarget = \<lparr>id_t = real now + rnd (draws s) + real i, position = g_position g\<rparr>
      in s\<lparr>targets := prev @ [newTarget], draws := g_next g\<rparr>)"

text \<open>
  The effect that runs on mount and whenever \<^verbatim>\<open>gameMode\<close> changes, run at time \<open>now\<close> with
  the new mode. For pulse it clears the list and registers one timer per target, due after
  \<^verbatim>\<open>i * 500\<close> milliseconds; otherwise it replaces the list by a fresh batch. Timers that
  are already pending stay pending in both branches.
\<close>

definition modeEffect :: "(nat \<Rightarrow> real) \<Rightarrow> game_mode \<Rightarrow> nat \<Rightarrow> manager \<Rightarrow> manager" where
  "modeEffect rnd gameMode now s =
     (if gameMode = Pulse then
        s\<lparr>targets := [],
          timers := timers s @ map (\<lambda>i. (now + i * 500, i)) [0..<spawnCount gameMode]\<rparr>
      else
        (case batchLoop rnd (real now) (spawnCount gameMode) 0 [] (draws s) of
           (initialTargets, k') \<Rightarrow> s\<lparr>targets := initialTargets, draws := k'\<rparr>))"

text \<open>
  The passage of time up to and including \<open>t\<close>: every pending timer due by then runs, in the
  order of the due times (timers due at the same time run in the order they were
  registered), and is no longer pending. A timer is taken to run at the time it is due.
\<close>

definition advance :: "(nat \<Rightarrow> real) \<Rightarrow> nat \<Rightarrow> manager \<Rightarrow> manager" where
  "advance rnd t s =
     foldl (\<lambda>s' (due, i). staggerSpawn rnd due i s')
       (s\<lparr>timers := filter (\<lambda>(due, i). \<not> due \<le> t) (timers s)\<rparr>)
       (sort_key fst (filter (\<lambda>(due, i). due \<le> t) (timers s)))"

text \<open>A hit or a timeout reported to the mounted manager at time \<open>now\<close>.\<close>

definition onHit :: "(nat \<Rightarrow> real) \<Rightarrow> nat \<Rightarrow> real \<Rightarrow> manager \<Rightarrow> manager" where
  "onHit rnd now targetId s =
     (case handleTargetHit rnd (real now) targetId (targets s) (draws s) of
        (ts, k') \<Rightarrow> s\<lparr>targets := ts, draws := k'\<rparr>)"

definition onTimeout :: "(nat \<Rightarrow> real) \<Rightarrow> nat \<Rightarrow> real \<Rightarrow> manager \<Rightarrow> manager" where
  "onTimeout rnd now targetId s =
     (case handleTargetTimeout rnd (real now) targetId (targets s) (draws s) of
        (ts, k') \<Rightarrow> s\<lparr>targets := ts, draws := k'\<rparr>)"

text \<open>The manager before its first effect has run: \<^verbatim>\<open>useState([])\<close>, nothing scheduled.\<close>

definition unmounted :: manager where
  "unmounted = \<lparr>targets = [], timers = [], draws = 0\<rparr>"

subsection \<open>Target entity\<close>

text \<open>
  The mesh that \<^verbatim>\<open>meshRef.current\<close> refers to: its uniform scale (\<^verbatim>\<open>scale.set(s, s, s)\<close>)
  and the \<^verbatim>\<open>x\<close> coordinate of its position.
\<close>

record mesh =
  scale :: real
  position_x :: real

text \<open>
  The mutable state of one mounted \<^verbatim>\<open>Target\<close> component: the three refs. \<open>meshRef\<close> is
  \<open>None\<close> while \<^verbatim>\<open>meshRef.current\<close> is not set.
\<close>

record entity =
  meshRef :: "mesh option"
  lifeRef :: real
  hasTimedOut :: bool

record movement =
  speed :: real
  offset :: real
  amplitude :: real

text \<open>
  The values the component holds for one target: its props and its memoised random
  parameters. \<open>onTargetTimeout\<close> tells whether the callback prop is passed.
\<close>

record props =
  id_p :: real
  gameMode :: game_mode
  pulseSpeed :: real
  randomScale :: real
  movementParams :: "movement option"
  initialX :: real
  onTargetTimeout :: bool

text \<open>The three \<^verbatim>\<open>useMemo\<close> bodies, as functions of the mode and of the values drawn.\<close>

definition pulseSpeedMemo :: "game_mode \<Rightarrow> real \<Rightarrow> real" where
  "pulseSpeedMemo mode r =
     (if mode = Pulse then
        (let minSpeed = 0.3; maxSpeed = 0.5 in r * (maxSpeed - minSpeed) + minSpeed)
      else 1.5)"

definition randomScaleMemo :: "game_mode \<Rightarrow> real \<Rightarrow> real" where
  "randomScaleMemo mode r = (if mode = Random_size then r * 1.0 + 0.5 else 1.0)"

definition movementParamsMemo :: "game_mode \<Rightarrow> real \<Rightarrow> real \<Rightarrow> real \<Rightarrow> movement option" where
  "movementParamsMemo mode r0 r1 r2 =
     (if mode = Strafing then
        Some \<lparr>speed = r0 * 0.5 + 0.5, offset = r1 * pi * 2, amplitude = r2 * 3 + 2\<rparr>
      else None)"

text \<open>The effect that runs on mount (and when a memoised value or the mode changes).\<close>

definition mountEffect :: "props \<Rightarrow> entity \<Rightarrow> entity" where
  "mountEffect p e =
     (case meshRef e of
        None \<Rightarrow> e
      | Some m \<Rightarrow>
          if gameMode p = Random_size then e\<lparr>meshRef := Some (m\<lparr>scale := randomScale p\<rparr>)\<rparr>
          else if gameMode p = Pulse then
            e\<lparr>meshRef := Some (m\<lparr>scale := 0\<rparr>), lifeRef := 0, hasTimedOut := False\<rparr>
          else e\<lparr>meshRef := Some (m\<lparr>scale := 1\<rparr>)\<rparr>)"

text \<open>
  The \<^verbatim>\<open>useFrame\<close> callback for one animation step with \<^verbatim>\<open>state.clock.elapsedTime\<close> and
  \<^verbatim>\<open>delta\<close>. The result is the new state and the timeout signal of this step: \<open>Some id\<close>
  when \<^verbatim>\<open>onTargetTimeout(id)\<close> is called.
\<close>

definition useFrame :: "props \<Rightarrow> real \<Rightarrow> real \<Rightarrow> entity \<Rightarrow> entity \<times> real option" where
  "useFrame p elapsedTime delta e =
     (case meshRef e of
        None \<Rightarrow> (e, None)
      | Some m \<Rightarrow>
          let m1 = (case movementParams p of
                      Some mp \<Rightarrow>
                        if gameMode p = Strafing then
                          m\<lparr>position_x :=
                              initialX p + sin (elapsedTime * speed mp + offset mp) * amplitude mp\<rparr>
                        else m
                    | None \<Rightarrow> m)
          in
          if gameMode p = Pulse then
            let life = lifeRef e + delta * pulseSpeed p;
                m2 = m1\<lparr>scale := sin life * 1.5\<rparr>;
                e2 = e\<lparr>meshRef := Some m2, lifeRef := life\<rparr>
            in
            if life > pi \<and> \<not> hasTimedOut e2 then
              (e2\<lparr>hasTimedOut := True\<rparr>, if onTargetTimeout p then Some (id_p p) else None)
            else (e2, None)
          else (e\<lparr>meshRef := Some m1\<rparr>, None))"

text \<open>
  A run of animation steps, each given as \<open>(elapsedTime, delta)\<close>: the state after each step
  together with the signal of that step.
\<close>

fun runFrames :: "props \<Rightarrow> (real \<times> real) list \<Rightarrow> entity \<Rightarrow> (entity \<times> real option) list" where
  "runFrames p [] e = []"
| "runFrames p ((elapsedTime, delta) # fs) e =
     (case useFrame p elapsedTime delta e of
        (e', signal) \<Rightarrow> (e', signal) # runFrames p fs e')"

subsection \<open>Hit resolver\<close>

text \<open>
  What \<^verbatim>\<open>handleShoot\<close> reads of a scene object: its \<^verbatim>\<open>name\<close> and \<^verbatim>\<open>type\<close>, whether
  \<^verbatim>\<open>userData?.isTarget\<close> is truthy, \<^verbatim>\<open>userData.targetId\<close>, and whether it has a parent.
\<close>

record object3d =
  name :: string
  type_o :: string
  userData_isTarget :: bool
  userData_targetId :: real
  hasParent :: bool

text \<open>One entry of the list returned by \<^verbatim>\<open>raycaster.intersectObjects\<close>.\<close>

record intersect =
  object :: object3d
  point :: vec3
  distance_i :: real

datatype log = HIT_TARGET real | HIT string | MISS

text \<open>The predicate given to \<^verbatim>\<open>intersects.filter\<close>.\<close>

definition keepIntersect :: "intersect \<Rightarrow> bool" where
  "keepIntersect i =
     (let obj = object i in
      if userData_isTarget obj then True
      else if name obj = ''floor'' \<or> name obj = ''back-wall'' then False
      else True)"

text \<open>\<^verbatim>\<open>raycaster.ray.at(t, target)\<close>: the point at parameter \<open>t\<close> along the ray.\<close>

fun ray_at :: "vec3 \<Rightarrow> vec3 \<Rightarrow> real \<Rightarrow> vec3" where
  "ray_at (ox, oy, oz) (dx, dy, dz) t = (dx * t + ox, dy * t + oy, dz * t + oz)"

text \<open>
  What one shot does: the id passed to \<^verbatim>\<open>onTargetHit\<close> (if it is called), whether the hit
  object was removed from its parent, the line written to the console, the object the
  laser ends on, and the end point of the laser.
\<close>

record shot =
  reported :: "real option"
  removed :: bool
  logged :: log
  hitObject :: "object3d option"
  laserEnd :: vec3

text \<open>
  \<^verbatim>\<open>handleShoot\<close>, given the ray of the raycaster and the list \<^verbatim>\<open>intersects\<close> it returns;
  \<open>onTargetHit\<close> tells whether the callback prop is passed. The early return
  \<^verbatim>\<open>if (!camera || !scene) return\<close> is the result \<open>None\<close>.
\<close>

definition handleShoot ::
  "bool \<Rightarrow> bool \<Rightarrow> vec3 \<Rightarrow> vec3 \<Rightarrow> intersect list \<Rightarrow> shot option" where
  "handleShoot ready onTargetHit origin direction intersects =
     (if \<not> ready then None
      else
        let filteredIntersects = filter keepIntersect intersects in
        (case filteredIntersects of
           [] \<Rightarrow>
             Some \<lparr>reported = None, removed = False, logged = MISS, hitObject = None,
                   laserEnd = ray_at origin direction 100\<rparr>
         | firstHit # rest \<Rightarrow>
             let obj = object firstHit;
                 objectName = (if name obj \<noteq> [] then name obj
                               else if type_o obj \<noteq> [] then type_o obj else ''Unknown'')
             in
             if userData_isTarget obj then
               Some \<lparr>reported = (if onTargetHit then Some (userData_targetId obj) else None),
                     removed = hasParent obj, logged = HIT_TARGET (userData_targetId obj),
                     hitObject = Some obj, laserEnd = point firstHit\<rparr>
             else
               Some \<lparr>reported = None, removed = False, logged = HIT objectName,
                     hitObject = Some obj, laserEnd = point firstHit\<rparr>))"

subsection \<open>Application\<close>

text \<open>
  The state of \<^verbatim>\<open>App\<close> that the hit handler touches: the score, the number of hit sounds
  played, and the manager behind \<^verbatim>\<open>targetManagerRef.current\<close> (\<open>None\<close> while the ref is
  not set).
\<close>

record app =
  score :: nat
  hitSounds :: nat
  targetManagerRef :: "manager option"

text \<open>\<^verbatim>\<open>handleTargetHit\<close> of \<^verbatim>\<open>App.jsx\<close>, called at time \<open>now\<close>.\<close>

definition handleTargetHit_App :: "(nat \<Rightarrow> real) \<Rightarrow> nat \<Rightarrow> real \<Rightarrow> app \<Rightarrow> app" where
  "handleTargetHit_App rnd now targetId a =
     (let a1 = a\<lparr>score := score a + 1\<rparr>;
          a2 = a1\<lparr>hitSounds := hitSounds a1 + 1\<rparr>
      in case targetManagerRef a2 of
           None \<Rightarrow> a2
         | Some m \<Rightarrow> a2\<lparr>targetManagerRef := Some (onHit rnd now targetId m)\<rparr>)"

text \<open>\<^verbatim>\<open>handleTargetTimeout\<close> of \<^verbatim>\<open>App.jsx\<close>: no score, only the manager is told.\<close>

definition handleTargetTimeout_App :: "(nat \<Rightarrow> real) \<Rightarrow> nat \<Rightarrow> real \<Rightarrow> app \<Rightarrow> app" where
  "handleTargetTimeout_App rnd now targetId a =
     (case targetManagerRef a of
        None \<Rightarrow> a
      | Some m \<Rightarrow> a\<lparr>targetManagerRef := Some (onTimeout rnd now targetId m)\<rparr>)"

subsection \<open>Inputs used in the examples\<close>


subsection \<open>Predicates used in the statements\<close>

text \<open>
  Every two distinct targets of the list are at Euclidean distance at least 2.5 from each
  other.
\<close>

definition separated :: "target list \<Rightarrow> bool" where
  "separated ts =
     (\<forall>i < length ts. \<forall>j < length ts.
        i \<noteq> j \<longrightarrow> 2.5 \<le> distance (position (ts ! i)) (position (ts ! j)))"

text \<open>
  The value of the life clock after the first \<open>n\<close> animation steps of the run \<open>fs\<close>: the sum of
  \<^verbatim>\<open>delta * pulseSpeed\<close> over these steps.
\<close>

definition lifeClock :: "props \<Rightarrow> (real \<times> real) list \<Rightarrow> nat \<Rightarrow> real" where
  "lifeClock p fs n = (\<Sum>(elapsedTime, delta) \<leftarrow> take n fs. delta * pulseSpeed p)"

section \<open>Properties\<close>

subsection \<open>Position generator\<close>

lemma tooClose_iff:
  "tooClose c ts \<longleftrightarrow> (\<exists>t \<in> set ts. distance c (position t) < MIN_DISTANCE)"
  by (induction ts) auto

lemma attemptLoop_found [simp]:
  "attemptLoop rnd ex (Some p) attempts k = (Some p, attempts, k)"
  by (simp add: attemptLoop.simps)

lemma attemptLoop_cap [simp]:
  "MAX_ATTEMPTS \<le> attempts \<Longrightarrow> attemptLoop rnd ex found attempts k = (found, attempts, k)"
  by (simp add: attemptLoop.simps)

lemma attemptLoop_accept:
  "attempts < MAX_ATTEMPTS \<Longrightarrow> \<not> tooClose (candidate rnd k) ex \<Longrightarrow>
   attemptLoop rnd ex None attempts k = (Some (candidate rnd k), attempts + 1, k + 2)"
  by (subst attemptLoop.simps) simp

lemma attemptLoop_reject:
  "attempts < MAX_ATTEMPTS \<Longrightarrow> tooClose (candidate rnd k) ex \<Longrightarrow>
   attemptLoop rnd ex None attempts k = attemptLoop rnd ex None (attempts + 1) (k + 2)"
  by (subst attemptLoop.simps) simp

lemma attemptLoop_Some:
  "attemptLoop rnd ex None attempts k = (Some p, a', k') \<Longrightarrow>
   \<not> tooClose p ex \<and> (\<exists>j. p = candidate rnd (k + 2 * j) \<and> k' = k + 2 * (j + 1)
      \<and> a' = attempts + j + 1 \<and> a' \<le> MAX_ATTEMPTS
      \<and> (\<forall>i < j. tooClose (candidate rnd (k + 2 * i)) ex))"
proof (induction "MAX_ATTEMPTS - attempts" arbitrary: attempts k)
  case 0
  then show ?case by simp
next
  case (Suc n)
  then have lt: "attempts < MAX_ATTEMPTS" by simp
  show ?case
  proof (cases "tooClose (candidate rnd k) ex")
    case False
    with lt Suc.prems have "p = candidate rnd k" "k' = k + 2" "a' = attempts + 1"
      by (simp_all add: attemptLoop_accept)
    with False lt show ?thesis by (intro conjI exI[of _ 0]) simp_all
  next
    case True
    with lt Suc.prems have *: "attemptLoop rnd ex None (attempts + 1) (k + 2) = (Some p, a', k')"
      by (simp add: attemptLoop_reject)
    from Suc.hyps have "n = MAX_ATTEMPTS - (attempts + 1)" by simp
    from Suc.hyps(1)[OF this *] obtain j where
      j: "\<not> tooClose p ex" "p = candidate rnd (k + 2 + 2 * j)" "k' = k + 2 + 2 * (j + 1)"
         "a' = attempts + 1 + j + 1" "a' \<le> MAX_ATTEMPTS"
         "\<forall>i < j. tooClose (candidate rnd (k + 2 + 2 * i)) ex"
      by auto
    have "\<forall>i < Suc j. tooClose (candidate rnd (k + 2 * i)) ex"
    proof (intro allI impI)
      fix i assume "i < Suc j"
      show "tooClose (candidate rnd (k + 2 * i)) ex"
      proof (cases i)
        case 0 with True show ?thesis by simp
      next
        case (Suc i')
        with \<open>i < Suc j\<close> j(6) have "tooClose (candidate rnd (k + 2 + 2 * i')) ex" by simp
        with Suc show ?thesis by (simp add: add.commute add.left_commute)
      qed
    qed
    with j show ?thesis
      by (intro conjI exI[of _ "Suc j"]) (simp_all add: add.commute add.left_commute)
  qed
qed

lemma attemptLoop_exhausted:
  "attempts \<le> MAX_ATTEMPTS \<Longrightarrow>
   \<forall>i < MAX_ATTEMPTS - attempts. tooClose (candidate rnd (k + 2 * i)) ex \<Longrightarrow>
   attemptLoop rnd ex None attempts k = (None, MAX_ATTEMPTS, k + 2 * (MAX_ATTEMPTS - attempts))"
proof (induction "MAX_ATTEMPTS - attempts" arbitrary: attempts k)
  case 0
  then show ?case by simp
next
  case (Suc n)
  then have lt: "attempts < MAX_ATTEMPTS" by simp
  from Suc.prems(2) Suc.hyps(2) have c0: "tooClose (candidate rnd k) ex"
    by (metis add.right_neutral mult_0_right zero_less_Suc)
  have n: "n = MAX_ATTEMPTS - (attempts + 1)" using Suc.hyps by simp
  have "\<forall>i < MAX_ATTEMPTS - (attempts + 1). tooClose (candidate rnd (k + 2 + 2 * i)) ex"
  proof (intro allI impI)
    fix i assume "i < MAX_ATTEMPTS - (attempts + 1)"
    then have "Suc i < MAX_ATTEMPTS - attempts" by simp
    with Suc.prems(2) have "tooClose (candidate rnd (k + 2 * Suc i)) ex" by blast
    then show "tooClose (candidate rnd (k + 2 + 2 * i)) ex"
      by (simp add: add.commute add.left_commute)
  qed
  with Suc.hyps(1)[OF n, of "k + 2"] lt
  have "attemptLoop rnd ex None (attempts + 1) (k + 2)
        = (None, MAX_ATTEMPTS, k + 2 + 2 * (MAX_ATTEMPTS - (attempts + 1)))"
    by simp
  moreover have "k + 2 + 2 * (MAX_ATTEMPTS - (attempts + 1)) = k + 2 * (MAX_ATTEMPTS - attempts)"
    using lt by simp
  ultimately show ?case using lt c0 by (simp add: attemptLoop_reject)
qed

lemma attemptLoop_None:
  "attemptLoop rnd ex None attempts k = (None, a', k') \<Longrightarrow> attempts \<le> MAX_ATTEMPTS \<Longrightarrow>
   a' = MAX_ATTEMPTS \<and> k' = k + 2 * (MAX_ATTEMPTS - attempts)
   \<and> (\<forall>i < MAX_ATTEMPTS - attempts. tooClose (candidate rnd (k + 2 * i)) ex)"
proof (induction "MAX_ATTEMPTS - attempts" arbitrary: attempts k)
  case 0
  then show ?case by simp
next
  case (Suc n)
  then have lt: "attempts < MAX_ATTEMPTS" by simp
  have c0: "tooClose (candidate rnd k) ex"
  proof (rule ccontr)
    assume "\<not> tooClose (candidate rnd k) ex"
    with lt Suc.prems(1) show False by (simp add: attemptLoop_accept)
  qed
  with lt Suc.prems have *: "attemptLoop rnd ex None (attempts + 1) (k + 2) = (None, a', k')"
    by (simp add: attemptLoop_reject)
  have n: "n = MAX_ATTEMPTS - (attempts + 1)" using Suc.hyps by simp
  from Suc.hyps(1)[OF n *] lt have ih: "a' = MAX_ATTEMPTS"
    "k' = k + 2 + 2 * (MAX_ATTEMPTS - (attempts + 1))"
    "\<forall>i < MAX_ATTEMPTS - (attempts + 1). tooClose (candidate rnd (k + 2 + 2 * i)) ex"
    by simp_all
  have "\<forall>i < MAX_ATTEMPTS - attempts. tooClose (candidate rnd (k + 2 * i)) ex"
  proof (intro allI impI)
    fix i assume i: "i < MAX_ATTEMPTS - attempts"
    show "tooClose (candidate rnd (k + 2 * i)) ex"
    proof (cases i)
      case 0 with c0 show ?thesis by simp
    next
      case (Suc i')
      with i have "i' < MAX_ATTEMPTS - (attempts + 1)" by simp
      with ih(3) have "tooClose (candidate rnd (k + 2 + 2 * i')) ex" by blast
      with Suc show ?thesis by (simp add: add.commute add.left_commute)
    qed
  qed
  moreover have "k + 2 + 2 * (MAX_ATTEMPTS - (attempts + 1)) = k + 2 * (MAX_ATTEMPTS - attempts)"
    using lt by simp
  ultimately show ?case using ih by simp
qed


lemma generateRandomPosition_accepted:
  "g_isValid (generateRandomPosition rnd ex k) \<Longrightarrow>
   \<not> tooClose (g_position (generateRandomPosition rnd ex k)) ex"
  unfolding generateRandomPosition_def
  by (auto split: prod.splits option.splits dest: attemptLoop_Some)

lemma generateRandomPosition_exhausted:
  assumes "\<forall>i < MAX_ATTEMPTS. tooClose (candidate rnd (k + 2 * i)) ex"
  shows "generateRandomPosition rnd ex k =
         \<lparr>g_position = candidate rnd (k + 2 * MAX_ATTEMPTS), g_isValid = False,
          g_next = k + 2 * MAX_ATTEMPTS + 2\<rparr>"
  using attemptLoop_exhausted [of 0 rnd k ex] assms
  by (simp add: generateRandomPosition_def candidate_def)

lemma generateRandomPosition_rejected:
  assumes "\<not> g_isValid (generateRandomPosition rnd ex k)"
  shows "(\<forall>i < MAX_ATTEMPTS. tooClose (candidate rnd (k + 2 * i)) ex)
    \<and> g_position (generateRandomPosition rnd ex k) = candidate rnd (k + 2 * MAX_ATTEMPTS)
    \<and> g_next (generateRandomPosition rnd ex k) = k + 2 * MAX_ATTEMPTS + 2"
proof -
  obtain found a' k' where l: "attemptLoop rnd ex None 0 k = (found, a', k')"
    by (metis prod_cases3)
  with assms have "found = None"
    by (cases found) (simp_all add: generateRandomPosition_def)
  with l attemptLoop_None [of rnd ex 0 k a' k']
  have "\<forall>i < MAX_ATTEMPTS. tooClose (candidate rnd (k + 2 * i)) ex" by simp
  then show ?thesis
    by (simp add: generateRandomPosition_exhausted)
qed

lemma generateRandomPosition_first:
  "\<not> tooClose (candidate rnd k) ex \<Longrightarrow>
   generateRandomPosition rnd ex k =
     \<lparr>g_position = candidate rnd k, g_isValid = True, g_next = k + 2\<rparr>"
  by (simp add: generateRandomPosition_def attemptLoop_accept MAX_ATTEMPTS_def)

lemma distance_commute: "distance a b = distance b a"
proof -
  obtain ax ay az bx by' bz where ab: "a = (ax, ay, az)" "b = (bx, by', bz)"
    by (metis prod_cases3)
  have sq: "\<And>u v::real. (u - v) * (u - v) = (v - u) * (v - u)"
    by (simp add: algebra_simps)
  show ?thesis
    unfolding ab distance.simps Let_def
    by (simp only: sq [of ax bx] sq [of ay by'] sq [of az bz])
qed

text \<open>
  Claim C1: when none of the 20 candidates drawn by the loop keeps the minimum separation,
  the generator is said to return the last candidate drawn and to draw no further one.
  Evaluation on a crowded input: with targets at \<open>(-1.5, 3, 8)\<close> and \<open>(1.5, 3, 8)\<close> every
  point of the spawn area is too close to one of them. When the first 40 draws are \<open>1/2\<close>
  the 20 candidates are all \<open>(0, 3, 8)\<close>, the last of them built from draws 38 and 39;
  the function then makes the draws 40 and 41 and returns the position built from them,
  \<open>(-3, 1.5, 8)\<close>, having made 42 draws.
\<close>

theorem generateRandomPosition_crowded_draws_again:
  "generateRandomPosition (\<lambda>k. if k < 40 then 1 / 2 else 0)
     [\<lparr>id_t = 1, position = (- 3 / 2, 3, 8)\<rparr>, \<lparr>id_t = 2, position = (3 / 2, 3, 8)\<rparr>] 0
   = \<lparr>g_position = (- 3, 3 / 2, 8), g_isValid = False, g_next = 42\<rparr>
   \<and> candidate (\<lambda>k. if k < 40 then 1 / 2 else 0) 38 = (0, 3, 8)"
proof -
  let ?rnd = "\<lambda>k::nat. if k < 40 then 1 / 2 else (0::real)"
  let ?ex = "[\<lparr>id_t = 1, position = (- 3 / 2, 3, 8)\<rparr>, \<lparr>id_t = 2, position = (3 / 2, 3, 8)\<rparr>]"
  have "\<forall>i < MAX_ATTEMPTS. tooClose (candidate ?rnd (0 + 2 * i)) ?ex"
    by (simp add: MAX_ATTEMPTS_def MIN_DISTANCE_def candidate_def)
  from generateRandomPosition_exhausted [OF this] show ?thesis
    by (simp add: MAX_ATTEMPTS_def candidate_def)
qed

lemma generateRandomPosition_far:
  assumes "g_isValid (generateRandomPosition rnd ex k)" and "t \<in> set ex"
  shows "2.5 \<le> distance (g_position (generateRandomPosition rnd ex k)) (position t)"
  using generateRandomPosition_accepted [OF assms(1)] assms(2)
  by (auto simp: tooClose_iff MIN_DISTANCE_def not_less)

lemma separated_iff_sorted_wrt:
  "separated ts \<longleftrightarrow> sorted_wrt (\<lambda>a b. 2.5 \<le> distance (position a) (position b)) ts"
proof
  assume "separated ts"
  then show "sorted_wrt (\<lambda>a b. 2.5 \<le> distance (position a) (position b)) ts"
    by (simp add: separated_def sorted_wrt_iff_nth_less)
next
  assume s: "sorted_wrt (\<lambda>a b. 2.5 \<le> distance (position a) (position b)) ts"
  show "separated ts"
    unfolding separated_def
  proof (intro allI impI)
    fix i j assume ij: "i < length ts" "j < length ts" "i \<noteq> j"
    show "2.5 \<le> distance (position (ts ! i)) (position (ts ! j))"
    proof (cases "i < j")
      case True
      with s ij show ?thesis by (simp add: sorted_wrt_iff_nth_less)
    next
      case False
      with ij have "j < i" by simp
      with s ij have "2.5 \<le> distance (position (ts ! j)) (position (ts ! i))"
        by (simp add: sorted_wrt_iff_nth_less)
      then show ?thesis by (simp add: distance_commute)
    qed
  qed
qed

lemma separated_snoc:
  assumes "separated ts" and "g_isValid (generateRandomPosition rnd ts k)"
  shows "separated (ts @ [\<lparr>id_t = x, position = g_position (generateRandomPosition rnd ts k)\<rparr>])"
proof -
  have "\<forall>t \<in> set ts.
          2.5 \<le> distance (position t) (g_position (generateRandomPosition rnd ts k))"
    using generateRandomPosition_far [OF assms(2)] by (simp add: distance_commute)
  with assms(1) show ?thesis
    by (simp add: separated_iff_sorted_wrt sorted_wrt_append)
qed

lemma batchLoop_separated:
  "separated initialTargets \<Longrightarrow> batchAccepted rnd now count i initialTargets k \<Longrightarrow>
   separated (fst (batchLoop rnd now count i initialTargets k))"
proof (induction rnd now count i initialTargets k rule: batchLoop.induct)
  case (1 rnd now count i initialTargets k)
  show ?case
  proof (cases "i < count")
    case False
    with "1.prems" show ?thesis by (simp add: batchLoop.simps)
  next
    case True
    let ?g = "generateRandomPosition rnd initialTargets (k + 1)"
    let ?new = "\<lparr>id_t = now + rnd k + real i, position = g_position ?g\<rparr>"
    from True "1.prems"(2) have acc: "g_isValid ?g"
      and rest: "batchAccepted rnd now count (i + 1) (initialTargets @ [?new]) (g_next ?g)"
      by (simp_all add: batchAccepted.simps [of rnd now count i] Let_def)
    from "1.prems"(1) acc have "separated (initialTargets @ [?new])"
      by (rule separated_snoc)
    from "1.IH" [OF True refl refl this rest] True show ?thesis
      by (simp add: batchLoop.simps [of rnd now count i] Let_def)
  qed
qed

lemma separated_Nil: "separated []"
  by (simp add: separated_def)

lemma batchAccepted_step:
  "i < count \<Longrightarrow> \<not> tooClose (candidate rnd (k + 1)) ts \<Longrightarrow>
   batchAccepted rnd now count i ts k =
     batchAccepted rnd now count (i + 1)
       (ts @ [\<lparr>id_t = now + rnd k + real i, position = candidate rnd (k + 1)\<rparr>]) (k + 3)"
  by (subst batchAccepted.simps) (simp add: generateRandomPosition_first Let_def numeral_3_eq_3)

lemma batchAccepted_done: "count \<le> i \<Longrightarrow> batchAccepted rnd now count i ts k"
  by (subst batchAccepted.simps) simp


text \<open>
  Claim C5: a position that the generator accepts within its 20 attempts is at Euclidean
  distance at least \<open>MIN_DISTANCE = 2.5\<close> from every target of the list it was given.
  Consequently the targets of a batch spawned on a change to a mode other than pulse are
  pairwise at distance at least 2.5 when no call of the batch exhausted the attempts, and
  a staggered spawn whose call did not exhaust them keeps a pairwise separated list
  pairwise separated.
\<close>

theorem accepted_positions_separated:
  "(g_isValid (generateRandomPosition rnd existing k) \<longrightarrow>
      (\<forall>t \<in> set existing.
         2.5 \<le> distance (g_position (generateRandomPosition rnd existing k)) (position t)))
   \<and> (mode \<noteq> Pulse \<and> batchAccepted rnd (real now) (spawnCount mode) 0 [] (draws s) \<longrightarrow>
        separated (targets (modeEffect rnd mode now s)))
   \<and> (separated (targets s) \<and> g_isValid (generateRandomPosition rnd (targets s) (draws s + 1)) \<longrightarrow>
        separated (targets (staggerSpawn rnd now i s)))"
proof (intro conjI impI)
  assume "g_isValid (generateRandomPosition rnd existing k)"
  then show "\<forall>t \<in> set existing.
      2.5 \<le> distance (g_position (generateRandomPosition rnd existing k)) (position t)"
    by (blast intro: generateRandomPosition_far)
next
  assume a: "mode \<noteq> Pulse \<and> batchAccepted rnd (real now) (spawnCount mode) 0 [] (draws s)"
  then have "separated (fst (batchLoop rnd (real now) (spawnCount mode) 0 [] (draws s)))"
    by (intro batchLoop_separated separated_Nil) simp
  with a show "separated (targets (modeEffect rnd mode now s))"
    by (simp add: modeEffect_def case_prod_beta)
next
  assume "separated (targets s) \<and> g_isValid (generateRandomPosition rnd (targets s) (draws s + 1))"
  then show "separated (targets (staggerSpawn rnd now i s))"
    by (simp add: staggerSpawn_def Let_def separated_snoc)
qed

theorem accepted_positions_separated_witness:
  "g_isValid (generateRandomPosition (\<lambda>k. if k = 4 then 1 / 2 else if k = 7 then 11 / 12 else 0)
       [\<lparr>id_t = 0, position = (- 3, 3 / 2, 8)\<rparr>] 4)
   \<and> 2.5 \<le> distance (g_position (generateRandomPosition
          (\<lambda>k. if k = 4 then 1 / 2 else if k = 7 then 11 / 12 else 0)
          [\<lparr>id_t = 0, position = (- 3, 3 / 2, 8)\<rparr>] 4)) (- 3, 3 / 2, 8)
   \<and> Normal \<noteq> Pulse
   \<and> batchAccepted (\<lambda>k. if k = 4 then 1 / 2 else if k = 7 then 11 / 12 else 0)
        (real 0) (spawnCount Normal) 0 [] (draws unmounted)
   \<and> separated (targets (modeEffect (\<lambda>k. if k = 4 then 1 / 2 else if k = 7 then 11 / 12 else 0)
        Normal 0 unmounted))
   \<and> separated (targets unmounted)
   \<and> g_isValid (generateRandomPosition (\<lambda>k. if k = 4 then 1 / 2 else if k = 7 then 11 / 12 else 0)
        (targets unmounted) (draws unmounted + 1))
   \<and> separated (targets (staggerSpawn (\<lambda>k. if k = 4 then 1 / 2 else if k = 7 then 11 / 12 else 0)
        0 0 unmounted))"
proof -
  let ?rnd = "\<lambda>k::nat. if k = 4 then 1 / 2 else if k = 7 then 11 / 12 else (0::real)"
  let ?ex = "[\<lparr>id_t = 0, position = (- 3, 3 / 2, 8)\<rparr>]"
  have v1: "g_isValid (generateRandomPosition ?rnd ?ex 4)"
    by (simp add: generateRandomPosition_first candidate_def MIN_DISTANCE_def)
  have v2: "batchAccepted ?rnd (real 0) (spawnCount Normal) 0 [] (draws unmounted)"
    by (simp add: batchAccepted_step batchAccepted_done spawnCount_def unmounted_def
        candidate_def MIN_DISTANCE_def)
  have v3: "separated (targets unmounted)"
    by (simp add: unmounted_def separated_def)
  have v4: "g_isValid (generateRandomPosition ?rnd (targets unmounted) (draws unmounted + 1))"
    by (simp add: unmounted_def generateRandomPosition_first)
  show ?thesis
    using accepted_positions_separated [of ?rnd ?ex 4 Normal 0 unmounted 0] v1 v2 v3 v4
    by simp
qed

subsection \<open>Target manager: hits and timeouts\<close>

lemma list_ex_id_iff: "list_ex (\<lambda>target. id_t target = x) prev \<longleftrightarrow> x \<in> id_t ` set prev"
  by (auto simp: list_ex_iff)


lemma distinct_id_carried_once:
  "distinct (map id_t prev) \<Longrightarrow> targetId \<in> id_t ` set prev \<Longrightarrow>
   length (filter (\<lambda>target. id_t target = targetId) prev) = 1"
proof (induction prev)
  case Nil
  then show ?case by simp
next
  case (Cons t ts)
  show ?case
  proof (cases "id_t t = targetId")
    case True
    with Cons.prems have "\<forall>u \<in> set ts. id_t u \<noteq> targetId" by (auto simp: image_iff)
    then have "filter (\<lambda>target. id_t target = targetId) ts = []"
      by (simp add: filter_empty_conv)
    with True show ?thesis by simp
  next
    case False
    with Cons show ?thesis by auto
  qed
qed


lemma handleTargetHit_not_live:
  "targetId \<notin> id_t ` set prev \<Longrightarrow> handleTargetHit rnd now targetId prev k = (prev, k)"
  by (simp add: handleTargetHit_def list_ex_id_iff)








subsection \<open>Target manager: mode changes and the staggered spawn\<close>

lemma batchLoop_length:
  "length (fst (batchLoop rnd now count i initialTargets k)) = length initialTargets + (count - i)"
proof (induction rnd now count i initialTargets k rule: batchLoop.induct)
  case (1 rnd now count i initialTargets k)
  show ?case
  proof (cases "i < count")
    case True
    with "1.IH" [OF True refl refl] show ?thesis
      by (simp add: batchLoop.simps [of rnd now count i] Let_def)
  next
    case False
    then show ?thesis by (simp add: batchLoop.simps)
  qed
qed

lemma modeEffect_batch:
  "mode \<noteq> Pulse \<Longrightarrow>
   length (targets (modeEffect rnd mode now s)) = spawnCount mode
   \<and> timers (modeEffect rnd mode now s) = timers s"
  by (simp add: modeEffect_def case_prod_beta batchLoop_length)

lemma upt_0_5: "[0..<5] = [0, 1, 2, 3, 4::nat]"
  by code_simp

lemma modeEffect_pulse:
  "targets (modeEffect rnd Pulse now s) = []
   \<and> timers (modeEffect rnd Pulse now s) =
       timers s @ map (\<lambda>i. (now + i * 500, i)) [0..<5]
   \<and> draws (modeEffect rnd Pulse now s) = draws s"
  by (simp add: modeEffect_def spawnCount_def)

lemma staggerSpawn_targets:
  "targets (staggerSpawn rnd now i s) =
     targets s @ [\<lparr>id_t = real now + rnd (draws s) + real i,
                   position = g_position (generateRandomPosition rnd (targets s) (draws s + 1))\<rparr>]"
  by (simp add: staggerSpawn_def Let_def)

lemma staggerSpawn_timers [simp]: "timers (staggerSpawn rnd now i s) = timers s"
  by (simp add: staggerSpawn_def Let_def)

lemma staggerSpawn_timers_update:
  "staggerSpawn rnd now i (s\<lparr>timers := x\<rparr>) = (staggerSpawn rnd now i s)\<lparr>timers := x\<rparr>"
  by (simp add: staggerSpawn_def Let_def)

lemma length_targets_staggerSpawn [simp]:
  "length (targets (staggerSpawn rnd now i s)) = Suc (length (targets s))"
  by (simp add: staggerSpawn_targets)

lemma foldl_staggerSpawn_length:
  "length (targets (foldl (\<lambda>s' (due, i). staggerSpawn rnd due i s') s tms))
     = length (targets s) + length tms"
  by (induction tms arbitrary: s) (simp_all add: case_prod_beta)

lemma foldl_staggerSpawn_timers:
  "timers (foldl (\<lambda>s' (due, i). staggerSpawn rnd due i s') s tms) = timers s"
  by (induction tms arbitrary: s) (simp_all add: case_prod_beta)

lemma advance_length:
  "length (targets (advance rnd t s))
     = length (targets s) + length (filter (\<lambda>(due, i). due \<le> t) (timers s))"
  by (simp add: advance_def foldl_staggerSpawn_length)

lemma advance_timers:
  "timers (advance rnd t s) = filter (\<lambda>(due, i). \<not> due \<le> t) (timers s)"
  by (simp add: advance_def foldl_staggerSpawn_timers)

lemma due_iff: "t0 \<le> t \<Longrightarrow> t0 + i * 500 \<le> t \<longleftrightarrow> i < (t - t0) div 500 + 1"
  for t0 t i :: nat
  by arith

lemma filter_due:
  "t0 \<le> t \<Longrightarrow>
   filter (\<lambda>i. t0 + i * 500 \<le> t) [0..<n] = [0..<min n ((t - t0) div 500 + 1)]"
proof (induction n)
  case 0
  then show ?case by simp
next
  case (Suc n)
  show ?case
  proof (cases "n < (t - t0) div 500 + 1")
    case True
    with Suc show ?thesis by (simp add: due_iff min_def)
  next
    case False
    with Suc show ?thesis by (simp add: due_iff min_def)
  qed
qed

lemma filter_not_due:
  "t0 \<le> t \<Longrightarrow>
   filter (\<lambda>i. \<not> t0 + i * 500 \<le> t) [0..<n] = [min n ((t - t0) div 500 + 1)..<n]"
proof (induction n)
  case 0
  then show ?case by simp
next
  case (Suc n)
  show ?case
  proof (cases "n < (t - t0) div 500 + 1")
    case True
    with Suc show ?thesis by (simp add: due_iff min_def)
  next
    case False
    with Suc show ?thesis by (simp add: due_iff min_def)
  qed
qed

lemma sorted_due: "sorted (map fst (map (\<lambda>i. (t0 + i * 500, i)) [0..<m]))"
  for t0 m :: nat
  by (simp add: comp_def sorted_iff_nth_mono)

lemma foldl_stagger_timers_update:
  "foldl (\<lambda>s' i. staggerSpawn rnd (t0 + i * 500) i s') (s\<lparr>timers := x\<rparr>) is
     = (foldl (\<lambda>s' i. staggerSpawn rnd (t0 + i * 500) i s') s is)\<lparr>timers := x\<rparr>"
  by (induction "is" arbitrary: s) (simp_all add: staggerSpawn_timers_update)

lemma advance_stagger:
  assumes "timers s = map (\<lambda>i. (t0 + i * 500, i)) [0..<n]" and "t0 \<le> t"
  shows "advance rnd t s =
           (foldl (\<lambda>s' i. staggerSpawn rnd (t0 + i * 500) i s') s
              [0..<min n ((t - t0) div 500 + 1)])
           \<lparr>timers := map (\<lambda>i. (t0 + i * 500, i)) [min n ((t - t0) div 500 + 1)..<n]\<rparr>"
proof -
  let ?f = "\<lambda>i. (t0 + i * 500, i)"
  let ?m = "min n ((t - t0) div 500 + 1)"
  have due: "filter (\<lambda>(due, i). due \<le> t) (timers s) = map ?f [0..<?m]"
    using assms by (simp add: filter_map comp_def filter_due)
  have rest: "filter (\<lambda>(due, i). \<not> due \<le> t) (timers s) = map ?f [?m..<n]"
    using assms by (simp add: filter_map comp_def filter_not_due)
  have srt: "sort_key fst (map ?f [0..<?m]) = map ?f [0..<?m]"
    by (rule sort_key_id_if_sorted) (rule sorted_due)
  show ?thesis
    unfolding advance_def due rest srt
    by (simp add: foldl_stagger_timers_update foldl_map)
qed

lemma advance_early:
  assumes "timers s = map (\<lambda>i. (t0 + i * 500, i)) [0..<n]" and "t < t0"
  shows "advance rnd t s = s"
proof -
  have "filter (\<lambda>(due, i). due \<le> t) (timers s) = []"
    using assms by (auto simp: filter_empty_conv)
  moreover have "filter (\<lambda>(due, i). \<not> due \<le> t) (timers s) = timers s"
    using assms by (auto simp: filter_id_conv)
  ultimately show ?thesis by (simp add: advance_def)
qed

lemma foldl_stagger_length:
  "length (targets (foldl (\<lambda>s' i. staggerSpawn rnd (t0 + i * 500) i s') s is))
     = length (targets s) + length is"
  by (induction "is" arbitrary: s) simp_all

text \<open>
  Claim C8: every mode change is said to clear the live targets and to leave exactly the
  mode's count of them: 3 for normal and strafing, 5 for random size and pulse.
  Evaluation of a run in which the mode changes while a staggered spawn is under way: the
  manager mounts in normal mode at time 0, the mode is set to pulse at time 0 and back to
  normal at time 100. The first pulse timer has run by then; the batch of the second change
  puts 3 targets in the list, and the four timers still pending (due at 500, 1000, 1500 and
  2000) each append one more, so at time 2100 normal mode has 7 live targets.
\<close>

theorem pending_stagger_outlives_mode_change:
  "length (targets (advance rnd 2100 (modeEffect rnd Normal 100
      (advance rnd 100 (modeEffect rnd Pulse 0 (modeEffect rnd Normal 0 unmounted)))))) = 7
   \<and> spawnCount Normal = 3"
proof -
  let ?s0 = "modeEffect rnd Normal 0 unmounted"
  let ?s1 = "modeEffect rnd Pulse 0 ?s0"
  let ?s2 = "advance rnd 100 ?s1"
  let ?s3 = "modeEffect rnd Normal 100 ?s2"
  have t0: "timers ?s0 = []"
    by (simp add: modeEffect_batch unmounted_def)
  have t1: "timers ?s1 = [(0, 0), (500, 1), (1000, 2), (1500, 3), (2000, 4)]"
    by (simp add: modeEffect_pulse t0 upt_0_5)
  have t2: "timers ?s2 = [(500, 1), (1000, 2), (1500, 3), (2000, 4)]"
    by (simp add: advance_timers t1)
  have t3: "timers ?s3 = [(500, 1), (1000, 2), (1500, 3), (2000, 4)]"
    by (simp add: modeEffect_batch t2)
  have l3: "length (targets ?s3) = 3"
    by (simp add: modeEffect_batch spawnCount_def)
  show ?thesis
    by (simp add: advance_length t3 l3) (simp add: spawnCount_def)
qed

text \<open>
  The staggered spawn when nothing interferes: when the mode is set to pulse at time \<open>t0\<close>
  and no staggered spawn of an earlier change is pending, the list is cleared first; up to
  any later time \<open>t\<close> exactly the staggered spawns due by then have run, in order, one every
  500 milliseconds, each appending one target placed against the targets already in the
  list. The count is \<open>j + 1\<close> at time \<open>t0 + 500 j\<close> for \<open>j \<le> 4\<close>, never decreases, and is
  exactly 5 from \<open>t0 + 2000\<close> on.
\<close>

lemma pulse_stagger_undisturbed:
  assumes "timers s = []"
  shows "targets (modeEffect rnd Pulse t0 s) = []
    \<and> (t < t0 \<longrightarrow> advance rnd t (modeEffect rnd Pulse t0 s) = modeEffect rnd Pulse t0 s)
    \<and> (t0 \<le> t \<longrightarrow>
         advance rnd t (modeEffect rnd Pulse t0 s) =
           (foldl (\<lambda>s' i. staggerSpawn rnd (t0 + i * 500) i s') (modeEffect rnd Pulse t0 s)
              [0..<min 5 ((t - t0) div 500 + 1)])
           \<lparr>timers := map (\<lambda>i. (t0 + i * 500, i)) [min 5 ((t - t0) div 500 + 1)..<5]\<rparr>
         \<and> length (targets (advance rnd t (modeEffect rnd Pulse t0 s)))
             = min 5 ((t - t0) div 500 + 1))
    \<and> (\<forall>j \<le> 4. length (targets (advance rnd (t0 + j * 500) (modeEffect rnd Pulse t0 s))) = j + 1)
    \<and> (t0 + 2000 \<le> t \<longrightarrow> length (targets (advance rnd t (modeEffect rnd Pulse t0 s))) = 5)
    \<and> (t \<le> t' \<longrightarrow> length (targets (advance rnd t (modeEffect rnd Pulse t0 s)))
                   \<le> length (targets (advance rnd t' (modeEffect rnd Pulse t0 s))))
    \<and> (\<forall>now i s'. targets (staggerSpawn rnd now i s') =
           targets s' @ [\<lparr>id_t = real now + rnd (draws s') + real i,
             position = g_position (generateRandomPosition rnd (targets s') (draws s' + 1))\<rparr>])"
proof -
  let ?s1 = "modeEffect rnd Pulse t0 s"
  have tm: "timers ?s1 = map (\<lambda>i. (t0 + i * 500, i)) [0..<5]"
    using assms by (simp add: modeEffect_pulse)
  have clr: "targets ?s1 = []" by (simp add: modeEffect_pulse)
  have early: "advance rnd u ?s1 = ?s1" if "u < t0" for u
    using tm that by (rule advance_early)
  have late: "advance rnd u ?s1 =
           (foldl (\<lambda>s' i. staggerSpawn rnd (t0 + i * 500) i s') ?s1
              [0..<min 5 ((u - t0) div 500 + 1)])
           \<lparr>timers := map (\<lambda>i. (t0 + i * 500, i)) [min 5 ((u - t0) div 500 + 1)..<5]\<rparr>"
    if "t0 \<le> u" for u
    using tm that by (rule advance_stagger)
  have len: "length (targets (advance rnd u ?s1)) = min 5 ((u - t0) div 500 + 1)" if "t0 \<le> u" for u
    by (simp add: late [OF that] foldl_stagger_length clr)
  have len0: "length (targets (advance rnd u ?s1)) = 0" if "u < t0" for u
    by (simp add: early [OF that] clr)
  have steps: "\<forall>j \<le> 4. length (targets (advance rnd (t0 + j * 500) ?s1)) = j + 1"
    by (simp add: len)
  have full: "length (targets (advance rnd t ?s1)) = 5" if "t0 + 2000 \<le> t"
  proof -
    from that have "4 \<le> (t - t0) div 500" by arith
    with that show ?thesis by (simp add: len)
  qed
  have mono: "length (targets (advance rnd t ?s1)) \<le> length (targets (advance rnd t' ?s1))"
    if "t \<le> t'"
  proof (cases "t0 \<le> t")
    case True
    with that have "t0 \<le> t'" by simp
    moreover from that have "(t - t0) div 500 \<le> (t' - t0) div 500"
      by (simp add: div_le_mono)
    ultimately show ?thesis using True by (simp add: len min_def)
  next
    case False
    then show ?thesis by (simp add: len0)
  qed
  show ?thesis
    using clr early late len steps full mono by (simp add: staggerSpawn_targets)
qed

lemma pulse_stagger_undisturbed_example:
  "timers unmounted = []
   \<and> targets (modeEffect (\<lambda>k. 0) Pulse 500 unmounted) = []
   \<and> 100 < (500::nat)
   \<and> advance (\<lambda>k. 0) 100 (modeEffect (\<lambda>k. 0) Pulse 500 unmounted)
       = modeEffect (\<lambda>k. 0) Pulse 500 unmounted
   \<and> (500::nat) \<le> 1700
   \<and> length (targets (advance (\<lambda>k. 0) 1700 (modeEffect (\<lambda>k. 0) Pulse 500 unmounted))) = 3
   \<and> (2::nat) \<le> 4
   \<and> length (targets (advance (\<lambda>k. 0) (500 + 2 * 500) (modeEffect (\<lambda>k. 0) Pulse 500 unmounted))) = 3
   \<and> (500::nat) + 2000 \<le> 2500
   \<and> length (targets (advance (\<lambda>k. 0) 2500 (modeEffect (\<lambda>k. 0) Pulse 500 unmounted))) = 5
   \<and> (1700::nat) \<le> 2500
   \<and> length (targets (advance (\<lambda>k. 0) 1700 (modeEffect (\<lambda>k. 0) Pulse 500 unmounted)))
       \<le> length (targets (advance (\<lambda>k. 0) 2500 (modeEffect (\<lambda>k. 0) Pulse 500 unmounted)))"
proof -
  let ?s1 = "modeEffect (\<lambda>k. 0) Pulse 500 unmounted"
  have h: "timers unmounted = []" by (simp add: unmounted_def)
  have n1: "100 < (500::nat)" and n2: "(500::nat) \<le> 1700" and n3: "(2::nat) \<le> 4"
    and n4: "(500::nat) + 2000 \<le> 2500" and n5: "(1700::nat) \<le> 2500"
    by simp_all
  note a = pulse_stagger_undisturbed [OF h, of "\<lambda>k. 0" 500 100 100]
  note b = pulse_stagger_undisturbed [OF h, of "\<lambda>k. 0" 500 1700 2500]
  note c = pulse_stagger_undisturbed [OF h, of "\<lambda>k. 0" 500 2500 2500]
  from a have 1: "targets ?s1 = []" by blast
  from a n1 have 2: "advance (\<lambda>k. 0) 100 ?s1 = ?s1" by blast
  from b n2 have "length (targets (advance (\<lambda>k. 0) 1700 ?s1)) = min 5 ((1700 - 500) div 500 + 1)"
    by blast
  then have 3: "length (targets (advance (\<lambda>k. 0) 1700 ?s1)) = 3" by simp
  from b have "\<forall>j \<le> 4. length (targets (advance (\<lambda>k. 0) (500 + j * 500) ?s1)) = j + 1"
    by blast
  with n3 have "length (targets (advance (\<lambda>k. 0) (500 + 2 * 500) ?s1)) = 2 + 1" by blast
  then have 4: "length (targets (advance (\<lambda>k. 0) (500 + 2 * 500) ?s1)) = 3" by simp
  from c n4 have 5: "length (targets (advance (\<lambda>k. 0) 2500 ?s1)) = 5" by blast
  from b n5 have 6: "length (targets (advance (\<lambda>k. 0) 1700 ?s1))
       \<le> length (targets (advance (\<lambda>k. 0) 2500 ?s1))"
    by blast
  from h 1 n1 2 n2 3 n3 4 n4 5 n5 6 show ?thesis by blast
qed

text \<open>
  Claim C7: when the mode is set to pulse the list is said to be cleared and then to
  receive one target every 500 milliseconds, the count reaching exactly 5 after 2000.
  Evaluation of a run in which the mode is set to pulse a second time while the staggered
  spawn of the first time is under way: pulse at time 0, normal at time 100, pulse again at
  time 200. The second change clears the list and registers its five timers, but the four
  timers of the first change that are still pending (due at 500, 1000, 1500 and 2000) are
  never cancelled, so 2000 milliseconds after the second change, at time 2200, the list
  has 9 targets. The same missing cancellation is evaluated for claim C8.
\<close>

theorem pulse_restart_exceeds_five:
  "length (targets (advance rnd 2200 (modeEffect rnd Pulse 200
      (advance rnd 200 (modeEffect rnd Normal 100
        (advance rnd 100 (modeEffect rnd Pulse 0 (modeEffect rnd Normal 0 unmounted)))))))) = 9
   \<and> spawnCount Pulse = 5"
proof -
  let ?s0 = "modeEffect rnd Normal 0 unmounted"
  let ?s1 = "modeEffect rnd Pulse 0 ?s0"
  let ?s2 = "advance rnd 100 ?s1"
  let ?s3 = "modeEffect rnd Normal 100 ?s2"
  let ?s4 = "advance rnd 200 ?s3"
  let ?s5 = "modeEffect rnd Pulse 200 ?s4"
  have t0: "timers ?s0 = []"
    by (simp add: modeEffect_batch unmounted_def)
  have t1: "timers ?s1 = [(0, 0), (500, 1), (1000, 2), (1500, 3), (2000, 4)]"
    by (simp add: modeEffect_pulse t0 upt_0_5)
  have t2: "timers ?s2 = [(500, 1), (1000, 2), (1500, 3), (2000, 4)]"
    by (simp add: advance_timers t1)
  have t3: "timers ?s3 = [(500, 1), (1000, 2), (1500, 3), (2000, 4)]"
    by (simp add: modeEffect_batch t2)
  have t4: "timers ?s4 = [(500, 1), (1000, 2), (1500, 3), (2000, 4)]"
    by (simp add: advance_timers t3)
  have t5: "timers ?s5 = [(500, 1), (1000, 2), (1500, 3), (2000, 4),
                          (200, 0), (700, 1), (1200, 2), (1700, 3), (2200, 4)]"
    by (simp add: modeEffect_pulse t4 upt_0_5)
  have l5: "targets ?s5 = []"
    by (simp add: modeEffect_pulse)
  show ?thesis
    by (simp add: advance_length t5 l5) (simp add: spawnCount_def)
qed

subsection \<open>Target entity\<close>

lemma lifeClock_0 [simp]: "lifeClock p fs 0 = 0"
  by (simp add: lifeClock_def)

lemma lifeClock_Cons [simp]:
  "lifeClock p ((elapsedTime, delta) # fs) (Suc n) = delta * pulseSpeed p + lifeClock p fs n"
  by (simp add: lifeClock_def)

lemma useFrame_pulse:
  assumes "gameMode p = Pulse" and "meshRef e = Some m"
  shows "useFrame p elapsedTime delta e =
     (e\<lparr>meshRef := Some (m\<lparr>scale := sin (lifeRef e + delta * pulseSpeed p) * 1.5\<rparr>),
        lifeRef := lifeRef e + delta * pulseSpeed p,
        hasTimedOut := hasTimedOut e \<or> lifeRef e + delta * pulseSpeed p > pi\<rparr>,
      if lifeRef e + delta * pulseSpeed p > pi \<and> \<not> hasTimedOut e \<and> onTargetTimeout p
      then Some (id_p p) else None)"
  using assms by (auto simp: useFrame_def Let_def split: option.splits)

lemma length_runFrames [simp]: "length (runFrames p fs e) = length fs"
  by (induction fs arbitrary: e) (auto split: prod.splits)

lemma runFrames_pulse:
  assumes "gameMode p = Pulse" and "meshRef e = Some m" and "n < length fs"
  shows "lifeRef (fst (runFrames p fs e ! n)) = lifeRef e + lifeClock p fs (Suc n)
    \<and> map_option scale (meshRef (fst (runFrames p fs e ! n)))
        = Some (sin (lifeRef e + lifeClock p fs (Suc n)) * 1.5)
    \<and> snd (runFrames p fs e ! n) =
        (if lifeRef e + lifeClock p fs (Suc n) > pi \<and> \<not> hasTimedOut e
            \<and> (\<forall>k < n. \<not> lifeRef e + lifeClock p fs (Suc k) > pi) \<and> onTargetTimeout p
         then Some (id_p p) else None)"
  using assms(2,3)
proof (induction fs arbitrary: e m n)
  case Nil
  then show ?case by simp
next
  case (Cons f fs)
  obtain elapsedTime delta where f: "f = (elapsedTime, delta)" by (cases f)
  let ?life = "lifeRef e + delta * pulseSpeed p"
  let ?m' = "m\<lparr>scale := sin ?life * 1.5\<rparr>"
  let ?e' = "e\<lparr>meshRef := Some ?m', lifeRef := ?life, hasTimedOut := hasTimedOut e \<or> ?life > pi\<rparr>"
  let ?sig = "if ?life > pi \<and> \<not> hasTimedOut e \<and> onTargetTimeout p then Some (id_p p) else None"
  have step: "useFrame p elapsedTime delta e = (?e', ?sig)"
    using assms(1) Cons.prems(1) by (rule useFrame_pulse)
  have run: "runFrames p (f # fs) e = (?e', ?sig) # runFrames p fs ?e'"
    by (simp add: f step)
  show ?case
  proof (cases n)
    case 0
    have lc0: "lifeClock p (f # fs) (Suc 0) = delta * pulseSpeed p"
      by (simp add: f)
    show ?thesis
      unfolding 0 run lc0 by simp
  next
    case (Suc n')
    with Cons.prems have n': "n' < length fs" by simp
    have me': "meshRef ?e' = Some ?m'" by simp
    note ih = Cons.IH [OF me' n']
    have all: "(\<forall>k < n. \<not> lifeRef e + lifeClock p (f # fs) (Suc k) > pi)
          \<longleftrightarrow> \<not> ?life > pi \<and> (\<forall>k < n'. \<not> ?life + lifeClock p fs (Suc k) > pi)"
      unfolding Suc by (auto simp: f less_Suc_eq_0_disj add.assoc)
    have nth: "runFrames p (f # fs) e ! n = runFrames p fs ?e' ! n'"
      by (simp add: run Suc)
    have lc: "lifeRef e + lifeClock p (f # fs) (Suc n) = ?life + lifeClock p fs (Suc n')"
      by (simp add: f Suc add.assoc)
    show ?thesis
      unfolding nth lc all using ih by auto
  qed
qed


lemma mountEffect_pulse:
  "gameMode p = Pulse \<Longrightarrow> meshRef e = Some m \<Longrightarrow>
   mountEffect p e = e\<lparr>meshRef := Some (m\<lparr>scale := 0\<rparr>), lifeRef := 0, hasTimedOut := False\<rparr>"
  by (simp add: mountEffect_def)

text \<open>
  Claim C6: for a mounted pulse-mode target that is passed the timeout callback and whose
  speed is the memoised value
  \<open>0.3 + r * 0.2\<close> of one draw \<open>r\<close> in \<open>[0, 1)\<close> (so within \<open>[0.3, 0.5]\<close>), the scale is 0
  after the mount effect; after each animation step the life clock is the sum of
  \<^verbatim>\<open>delta * speed\<close> over the steps so far and the scale is \<open>sin lifeClock * 1.5\<close>; the
  timeout signal is sent with the target's id at the first step at which the life clock
  exceeds \<open>pi\<close> and at no other step, hence exactly once in a run that reaches such a step
  and never in a run that does not.
\<close>

theorem pulse_animation:
  assumes "gameMode p = Pulse"
    and "pulseSpeed p = pulseSpeedMemo (gameMode p) r" and "0 \<le> r" and "r < 1"
    and "onTargetTimeout p"
    and "meshRef e = Some m"
  shows "pulseSpeed p = 0.3 + r * 0.2 \<and> 0.3 \<le> pulseSpeed p \<and> pulseSpeed p \<le> 0.5
    \<and> map_option scale (meshRef (mountEffect p e)) = Some 0
    \<and> lifeRef (mountEffect p e) = 0 \<and> \<not> hasTimedOut (mountEffect p e)
    \<and> (\<forall>n < length fs.
          lifeRef (fst (runFrames p fs (mountEffect p e) ! n)) = lifeClock p fs (Suc n)
          \<and> map_option scale (meshRef (fst (runFrames p fs (mountEffect p e) ! n)))
              = Some (sin (lifeClock p fs (Suc n)) * 1.5)
          \<and> snd (runFrames p fs (mountEffect p e) ! n) =
              (if lifeClock p fs (Suc n) > pi \<and> (\<forall>k < n. \<not> lifeClock p fs (Suc k) > pi)
               then Some (id_p p) else None))
    \<and> ((\<exists>n < length fs. lifeClock p fs (Suc n) > pi) \<longrightarrow>
          (\<exists>!n. n < length fs \<and> snd (runFrames p fs (mountEffect p e) ! n) \<noteq> None))
    \<and> ((\<forall>n < length fs. \<not> lifeClock p fs (Suc n) > pi) \<longrightarrow>
          (\<forall>n < length fs. snd (runFrames p fs (mountEffect p e) ! n) = None))"
proof -
  let ?e0 = "mountEffect p e"
  let ?sig = "\<lambda>n. snd (runFrames p fs ?e0 ! n)"
  let ?over = "\<lambda>n. lifeClock p fs (Suc n) > pi"
  have e0: "?e0 = e\<lparr>meshRef := Some (m\<lparr>scale := 0\<rparr>), lifeRef := 0, hasTimedOut := False\<rparr>"
    using assms(1,6) by (rule mountEffect_pulse)
  have m0: "meshRef ?e0 = Some (m\<lparr>scale := 0\<rparr>)" and l0: "lifeRef ?e0 = 0"
    and h0: "\<not> hasTimedOut ?e0"
    by (simp_all add: e0)
  have sp: "pulseSpeed p = 0.3 + r * 0.2"
    using assms(1,2) by (simp add: pulseSpeedMemo_def Let_def)
  have rng: "0.3 \<le> pulseSpeed p" "pulseSpeed p \<le> 0.5"
    using assms(3,4) by (simp_all add: sp)
  have tr: "lifeRef (fst (runFrames p fs ?e0 ! n)) = lifeClock p fs (Suc n)
          \<and> map_option scale (meshRef (fst (runFrames p fs ?e0 ! n)))
              = Some (sin (lifeClock p fs (Suc n)) * 1.5)
          \<and> ?sig n = (if ?over n \<and> (\<forall>k < n. \<not> ?over k) then Some (id_p p) else None)"
    if "n < length fs" for n
    using runFrames_pulse [OF assms(1) m0 that] assms(5) by (simp add: l0 h0)
  have once: "\<exists>!n. n < length fs \<and> ?sig n \<noteq> None" if ex: "\<exists>n < length fs. ?over n"
  proof -
    from ex have "\<exists>n. n < length fs \<and> ?over n" by blast
    then have "\<exists>n. (n < length fs \<and> ?over n) \<and> (\<forall>k < n. \<not> (k < length fs \<and> ?over k))"
      by (rule exists_least_iff [THEN iffD1])
    then obtain n0 where n0: "n0 < length fs \<and> ?over n0"
      and min0: "\<forall>k < n0. \<not> (k < length fs \<and> ?over k)"
      by blast
    have least: "\<not> ?over k" if "k < n0" for k
    proof -
      from that n0 have "k < length fs" by simp
      with min0 that show ?thesis by blast
    qed
    have before: "\<forall>k < n0. \<not> ?over k"
      using least by blast
    have sig0: "?sig n0 = Some (id_p p)"
    proof -
      from n0 have "n0 < length fs" by blast
      from tr [OF this]
      have "?sig n0 = (if ?over n0 \<and> (\<forall>k < n0. \<not> ?over k) then Some (id_p p) else None)"
        by blast
      also have "\<dots> = Some (id_p p)"
      proof (rule if_P)
        from n0 before show "?over n0 \<and> (\<forall>k < n0. \<not> ?over k)" by blast
      qed
      finally show ?thesis .
    qed
    show ?thesis
    proof (rule ex1I [of _ n0])
      from n0 sig0 show "n0 < length fs \<and> ?sig n0 \<noteq> None" by simp
    next
      fix n assume n: "n < length fs \<and> ?sig n \<noteq> None"
      then have "n < length fs" by blast
      from tr [OF this]
      have sn: "?sig n = (if ?over n \<and> (\<forall>k < n. \<not> ?over k) then Some (id_p p) else None)"
        by blast
      have o: "?over n \<and> (\<forall>k < n. \<not> ?over k)"
      proof (rule ccontr)
        assume "\<not> (?over n \<and> (\<forall>k < n. \<not> ?over k))"
        then have "(if ?over n \<and> (\<forall>k < n. \<not> ?over k) then Some (id_p p) else None) = None"
          by (rule if_not_P)
        with sn have "?sig n = None" by (rule trans)
        with n show False by blast
      qed
      from o n0 have "\<not> n0 < n" by blast
      moreover from o before have "\<not> n < n0" by blast
      ultimately show "n = n0" by simp
    qed
  qed
  have never: "\<forall>n < length fs. ?sig n = None" if "\<forall>n < length fs. \<not> ?over n"
    using that tr by simp
  have sc0: "map_option scale (meshRef ?e0) = Some 0"
    by (simp add: m0)
  have tr_all: "\<forall>n < length fs.
          lifeRef (fst (runFrames p fs ?e0 ! n)) = lifeClock p fs (Suc n)
          \<and> map_option scale (meshRef (fst (runFrames p fs ?e0 ! n)))
              = Some (sin (lifeClock p fs (Suc n)) * 1.5)
          \<and> ?sig n = (if ?over n \<and> (\<forall>k < n. \<not> ?over k) then Some (id_p p) else None)"
    using tr by blast
  have once_imp: "(\<exists>n < length fs. ?over n) \<longrightarrow> (\<exists>!n. n < length fs \<and> ?sig n \<noteq> None)"
    using once by blast
  have never_imp: "(\<forall>n < length fs. \<not> ?over n) \<longrightarrow> (\<forall>n < length fs. ?sig n = None)"
    using never by blast
  show ?thesis
    using sp rng(1) rng(2) sc0 l0 h0 tr_all once_imp never_imp
    by (intro conjI) assumption+
qed

theorem pulse_animation_witness:
  "gameMode \<lparr>id_p = 7, gameMode = Pulse, pulseSpeed = 2 / 5, randomScale = 1,
       movementParams = None, initialX = 0, onTargetTimeout = True\<rparr> = Pulse
   \<and> pulseSpeed \<lparr>id_p = 7, gameMode = Pulse, pulseSpeed = 2 / 5, randomScale = 1,
       movementParams = None, initialX = 0, onTargetTimeout = True\<rparr>
       = pulseSpeedMemo Pulse (1 / 2)
   \<and> (0::real) \<le> 1 / 2 \<and> (1 / 2 :: real) < 1
   \<and> lifeClock \<lparr>id_p = 7, gameMode = Pulse, pulseSpeed = 2 / 5, randomScale = 1,
       movementParams = None, initialX = 0, onTargetTimeout = True\<rparr> [(5, 5), (10, 5)] (Suc 0) = 2
   \<and> lifeClock \<lparr>id_p = 7, gameMode = Pulse, pulseSpeed = 2 / 5, randomScale = 1,
       movementParams = None, initialX = 0, onTargetTimeout = True\<rparr> [(5, 5), (10, 5)] (Suc (Suc 0)) = 4
   \<and> snd (runFrames \<lparr>id_p = 7, gameMode = Pulse, pulseSpeed = 2 / 5, randomScale = 1,
          movementParams = None, initialX = 0, onTargetTimeout = True\<rparr> [(5, 5), (10, 5)]
        (mountEffect \<lparr>id_p = 7, gameMode = Pulse, pulseSpeed = 2 / 5, randomScale = 1,
          movementParams = None, initialX = 0, onTargetTimeout = True\<rparr>
          \<lparr>meshRef = Some \<lparr>scale = 1, position_x = 0\<rparr>, lifeRef = 0, hasTimedOut = False\<rparr>) ! 0)
       = None
   \<and> snd (runFrames \<lparr>id_p = 7, gameMode = Pulse, pulseSpeed = 2 / 5, randomScale = 1,
          movementParams = None, initialX = 0, onTargetTimeout = True\<rparr> [(5, 5), (10, 5)]
        (mountEffect \<lparr>id_p = 7, gameMode = Pulse, pulseSpeed = 2 / 5, randomScale = 1,
          movementParams = None, initialX = 0, onTargetTimeout = True\<rparr>
          \<lparr>meshRef = Some \<lparr>scale = 1, position_x = 0\<rparr>, lifeRef = 0, hasTimedOut = False\<rparr>) ! Suc 0)
       = Some 7
   \<and> map_option scale (meshRef (fst (runFrames \<lparr>id_p = 7, gameMode = Pulse, pulseSpeed = 2 / 5,
          randomScale = 1, movementParams = None, initialX = 0, onTargetTimeout = True\<rparr>
          [(5, 5), (10, 5)]
        (mountEffect \<lparr>id_p = 7, gameMode = Pulse, pulseSpeed = 2 / 5, randomScale = 1,
          movementParams = None, initialX = 0, onTargetTimeout = True\<rparr>
          \<lparr>meshRef = Some \<lparr>scale = 1, position_x = 0\<rparr>, lifeRef = 0, hasTimedOut = False\<rparr>) ! Suc 0)))
       = Some (sin 4 * 1.5)"
proof -
  let ?p = "\<lparr>id_p = 7, gameMode = Pulse, pulseSpeed = 2 / 5, randomScale = 1,
       movementParams = None, initialX = 0, onTargetTimeout = True\<rparr>"
  let ?e = "\<lparr>meshRef = Some \<lparr>scale = 1, position_x = 0\<rparr>, lifeRef = 0, hasTimedOut = False\<rparr>"
  let ?fs = "[(5, 5), (10, 5)] :: (real \<times> real) list"
  let ?tr = "runFrames ?p ?fs (mountEffect ?p ?e)"
  let ?over = "\<lambda>n. lifeClock ?p ?fs (Suc n) > pi"
  have h1: "gameMode ?p = Pulse" by simp
  have h2': "pulseSpeed ?p = pulseSpeedMemo Pulse (1 / 2)"
    by (simp add: pulseSpeedMemo_def)
  have h2: "pulseSpeed ?p = pulseSpeedMemo (gameMode ?p) (1 / 2)"
    by (simp add: pulseSpeedMemo_def)
  have h3: "(0::real) \<le> 1 / 2" and h4: "(1 / 2 :: real) < 1" by simp_all
  have h5: "onTargetTimeout ?p" by simp
  have h6: "meshRef ?e = Some \<lparr>scale = 1, position_x = 0\<rparr>" by simp
  have l1: "lifeClock ?p ?fs (Suc 0) = 2" and l2: "lifeClock ?p ?fs (Suc (Suc 0)) = 4"
    by (simp_all add: lifeClock_def)
  have o1: "\<not> ?over 0"
    using pi_ge_two by (simp add: l1)
  have o2: "?over (Suc 0)"
    using pi_less_4 by (simp add: l2)
  have b1: "\<forall>k < Suc 0. \<not> ?over k"
    using o1 by simp
  have i0: "0 < length ?fs" and i1: "Suc 0 < length ?fs" by simp_all
  from pulse_animation [OF h1 h2 h3 h4 h5 h6, of ?fs]
  have tr: "\<forall>n < length ?fs.
          lifeRef (fst (?tr ! n)) = lifeClock ?p ?fs (Suc n)
          \<and> map_option scale (meshRef (fst (?tr ! n))) = Some (sin (lifeClock ?p ?fs (Suc n)) * 1.5)
          \<and> snd (?tr ! n) =
              (if ?over n \<and> (\<forall>k < n. \<not> ?over k) then Some (id_p ?p) else None)"
    by blast
  from tr i0 have "snd (?tr ! 0) = (if ?over 0 \<and> (\<forall>k < 0. \<not> ?over k) then Some (id_p ?p) else None)"
    by blast
  also have "\<dots> = None"
    using o1 by (intro if_not_P) blast
  finally have s0: "snd (?tr ! 0) = None" .
  from tr i1 have "snd (?tr ! Suc 0)
      = (if ?over (Suc 0) \<and> (\<forall>k < Suc 0. \<not> ?over k) then Some (id_p ?p) else None)"
    by blast
  also have "\<dots> = Some (id_p ?p)"
    using o2 b1 by (intro if_P) blast
  also have "\<dots> = Some 7" by simp
  finally have s1: "snd (?tr ! Suc 0) = Some 7" .
  from tr i1 have "map_option scale (meshRef (fst (?tr ! Suc 0)))
      = Some (sin (lifeClock ?p ?fs (Suc (Suc 0))) * 1.5)"
    by blast
  then have t1: "map_option scale (meshRef (fst (?tr ! Suc 0))) = Some (sin 4 * 1.5)"
    by (simp only: l2)
  from h1 h2' h3 h4 l1 l2 s0 s1 t1 show ?thesis by blast
qed

subsection \<open>Hit resolver\<close>

lemma keepIntersect_target: "userData_isTarget (object i) \<Longrightarrow> keepIntersect i"
  by (simp add: keepIntersect_def)

lemma keepIntersect_floor_back_wall:
  "\<not> userData_isTarget (object i) \<Longrightarrow> name (object i) = ''floor'' \<or> name (object i) = ''back-wall'' \<Longrightarrow>
   \<not> keepIntersect i"
  by (auto simp: keepIntersect_def)

lemma handleShoot_target_behind_floor:
  assumes "userData_isTarget (object h)"
    and "\<forall>i \<in> set before. \<not> userData_isTarget (object i) \<and> name (object i) = ''floor''"
  shows "handleShoot True True origin direction (before @ h # rest) =
     Some \<lparr>reported = Some (userData_targetId (object h)), removed = hasParent (object h),
           logged = HIT_TARGET (userData_targetId (object h)), hitObject = Some (object h),
           laserEnd = point h\<rparr>"
proof -
  from assms(2) have "filter keepIntersect before = []"
    by (auto simp: filter_empty_conv keepIntersect_def)
  with assms(1) show ?thesis
    by (simp add: handleShoot_def keepIntersect_target Let_def)
qed

lemma distance_ray_at:
  assumes "distance direction (0, 0, 0) = 1"
  shows "distance origin (ray_at origin direction t) = \<bar>t\<bar>"
proof -
  obtain ox oy oz dx dy dz where v: "origin = (ox, oy, oz)" "direction = (dx, dy, dz)"
    by (metis prod_cases3)
  from assms have "sqrt (dx * dx + dy * dy + dz * dz) = 1" by (simp add: v)
  then have u: "dx * dx + dy * dy + dz * dz = 1" by simp
  have "(ox - (dx * t + ox)) * (ox - (dx * t + ox)) + (oy - (dy * t + oy)) * (oy - (dy * t + oy))
        + (oz - (dz * t + oz)) * (oz - (dz * t + oz)) = (t * t) * (dx * dx + dy * dy + dz * dz)"
    by (simp add: algebra_simps)
  also have "\<dots> = t * t" by (simp only: u mult_1_right)
  finally show ?thesis by (simp add: v)
qed

lemma sorted_filter_head:
  assumes "sorted (map distance_i intersects)" and "filter keepIntersect intersects = h # rest"
  shows "\<forall>c \<in> set (filter keepIntersect intersects). distance_i h \<le> distance_i c"
proof -
  from assms(1) have "sorted (map distance_i (filter keepIntersect intersects))"
    by (rule sorted_filter)
  then show ?thesis by (simp add: assms(2))
qed

text \<open>
  Claim C2: every named environment surface, floor and walls, is said to be excluded from
  being reported as the object hit, while targets are always retained. The filter keeps
  every target (\<open>keepIntersect_target\<close>) and drops the floor and the back wall
  (\<open>keepIntersect_floor_back_wall\<close>), so a target behind the floor is still the first
  retained hit (\<open>handleShoot_target_behind_floor\<close>); but it names no other surface.
  Evaluation of a shot from the camera position along \<open>-x\<close>, whose only intersection is the
  mesh named \<open>left-wall\<close>: the wall is retained, it is the object the shot reports
  (\<^verbatim>\<open>HIT left-wall\<close>) and the laser ends on it, while the back wall at the same distance
  would have been dropped.
\<close>

theorem side_wall_reported_as_hit:
  "keepIntersect \<lparr>object = \<lparr>name = ''left-wall'', type_o = ''Mesh'', userData_isTarget = False,
        userData_targetId = 0, hasParent = True\<rparr>, point = (- 10, 3 / 2, 0), distance_i = 10\<rparr>
   \<and> handleShoot True True (0, 3 / 2, 0) (- 1, 0, 0)
       [\<lparr>object = \<lparr>name = ''left-wall'', type_o = ''Mesh'', userData_isTarget = False,
          userData_targetId = 0, hasParent = True\<rparr>, point = (- 10, 3 / 2, 0), distance_i = 10\<rparr>]
     = Some \<lparr>reported = None, removed = False, logged = HIT ''left-wall'',
        hitObject = Some \<lparr>name = ''left-wall'', type_o = ''Mesh'', userData_isTarget = False,
          userData_targetId = 0, hasParent = True\<rparr>,
        laserEnd = (- 10, 3 / 2, 0)\<rparr>
   \<and> \<not> keepIntersect \<lparr>object = \<lparr>name = ''back-wall'', type_o = ''Mesh'', userData_isTarget = False,
        userData_targetId = 0, hasParent = True\<rparr>, point = (0, 3 / 2, - 10), distance_i = 10\<rparr>"
  by (simp add: handleShoot_def keepIntersect_def)

text \<open>
  Claim C9: for a shot fired with camera and scene present: when no candidate is retained,
  the shot reports a miss, no target hit, and the
  laser ends at the point of parameter 100 of the ray, which is at distance exactly 100
  from the ray origin when the direction has length 1. When the first retained candidate
  is not a target (it is the nearest retained one when the intersections come ordered by
  distance), the laser ends at that candidate's intersection point, the candidate is
  logged as hit, and no target hit is reported.
\<close>

theorem miss_and_environment_hit:
  "(filter keepIntersect intersects = [] \<longrightarrow>
      handleShoot True cb origin direction intersects =
        Some \<lparr>reported = None, removed = False, logged = MISS, hitObject = None,
              laserEnd = ray_at origin direction 100\<rparr>
      \<and> (distance direction (0, 0, 0) = 1 \<longrightarrow>
           distance origin (ray_at origin direction 100) = 100))
   \<and> (\<forall>h rest. filter keepIntersect intersects = h # rest \<and> \<not> userData_isTarget (object h) \<longrightarrow>
        (\<exists>r n. handleShoot True cb origin direction intersects = Some r
           \<and> reported r = None \<and> \<not> removed r \<and> logged r = HIT n
           \<and> hitObject r = Some (object h) \<and> laserEnd r = point h)
        \<and> (sorted (map distance_i intersects) \<longrightarrow>
             (\<forall>c \<in> set (filter keepIntersect intersects). distance_i h \<le> distance_i c)))"
proof (intro conjI impI allI)
  assume "filter keepIntersect intersects = []"
  then show "handleShoot True cb origin direction intersects =
        Some \<lparr>reported = None, removed = False, logged = MISS, hitObject = None,
              laserEnd = ray_at origin direction 100\<rparr>"
    by (simp add: handleShoot_def)
next
  assume "distance direction (0, 0, 0) = 1"
  then show "distance origin (ray_at origin direction 100) = 100"
    by (simp add: distance_ray_at)
next
  fix h rest
  assume "filter keepIntersect intersects = h # rest \<and> \<not> userData_isTarget (object h)"
  then show "\<exists>r n. handleShoot True cb origin direction intersects = Some r
           \<and> reported r = None \<and> \<not> removed r \<and> logged r = HIT n
           \<and> hitObject r = Some (object h) \<and> laserEnd r = point h"
    by (simp add: handleShoot_def Let_def)
next
  fix h rest
  assume "filter keepIntersect intersects = h # rest \<and> \<not> userData_isTarget (object h)"
    and "sorted (map distance_i intersects)"
  then show "\<forall>c \<in> set (filter keepIntersect intersects). distance_i h \<le> distance_i c"
    using sorted_filter_head by blast
qed

theorem miss_and_environment_hit_witness:
  "filter keepIntersect [\<lparr>object = \<lparr>name = ''floor'', type_o = ''Mesh'', userData_isTarget = False,
        userData_targetId = 0, hasParent = True\<rparr>, point = (0, 0, 0), distance_i = 3 / 2\<rparr>] = []
   \<and> handleShoot True True (0, 3 / 2, 0) (0, - 1, 0)
        [\<lparr>object = \<lparr>name = ''floor'', type_o = ''Mesh'', userData_isTarget = False,
        userData_targetId = 0, hasParent = True\<rparr>, point = (0, 0, 0), distance_i = 3 / 2\<rparr>]
      = Some \<lparr>reported = None, removed = False, logged = MISS, hitObject = None,
              laserEnd = (0, - 197 / 2, 0)\<rparr>
   \<and> distance (0, - 1, 0) (0, 0, 0) = 1
   \<and> distance (0, 3 / 2, 0) (ray_at (0, 3 / 2, 0) (0, - 1, 0) 100) = 100
   \<and> filter keepIntersect
        [\<lparr>object = \<lparr>name = ''right-wall'', type_o = ''Mesh'', userData_isTarget = False,
            userData_targetId = 0, hasParent = True\<rparr>, point = (10, 3 / 2, 0), distance_i = 10\<rparr>]
      = [\<lparr>object = \<lparr>name = ''right-wall'', type_o = ''Mesh'', userData_isTarget = False,
            userData_targetId = 0, hasParent = True\<rparr>, point = (10, 3 / 2, 0), distance_i = 10\<rparr>]
   \<and> \<not> userData_isTarget (object
        \<lparr>object = \<lparr>name = ''right-wall'', type_o = ''Mesh'', userData_isTarget = False,
            userData_targetId = 0, hasParent = True\<rparr>, point = (10, 3 / 2, 0), distance_i = 10\<rparr>)
   \<and> sorted (map distance_i
        [\<lparr>object = \<lparr>name = ''right-wall'', type_o = ''Mesh'', userData_isTarget = False,
            userData_targetId = 0, hasParent = True\<rparr>, point = (10, 3 / 2, 0), distance_i = 10\<rparr>])
   \<and> (\<exists>r n. handleShoot True True (0, 3 / 2, 0) (1, 0, 0)
        [\<lparr>object = \<lparr>name = ''right-wall'', type_o = ''Mesh'', userData_isTarget = False,
            userData_targetId = 0, hasParent = True\<rparr>, point = (10, 3 / 2, 0), distance_i = 10\<rparr>] = Some r
       \<and> reported r = None \<and> logged r = HIT n \<and> laserEnd r = (10, 3 / 2, 0))"
proof -
  let ?floor = "\<lparr>object = \<lparr>name = ''floor'', type_o = ''Mesh'', userData_isTarget = False,
        userData_targetId = 0, hasParent = True\<rparr>, point = (0, 0, 0), distance_i = 3 / 2\<rparr>"
  let ?wall = "\<lparr>object = \<lparr>name = ''right-wall'', type_o = ''Mesh'', userData_isTarget = False,
            userData_targetId = 0, hasParent = True\<rparr>, point = (10, 3 / 2, 0), distance_i = 10\<rparr>"
  have h1: "filter keepIntersect [?floor] = []"
    by (simp add: keepIntersect_def)
  have h2: "distance (0, - 1, 0) (0, 0, 0) = 1" by simp
  have h3: "filter keepIntersect [?wall] = [?wall]"
    by (simp add: keepIntersect_def)
  have h4: "\<not> userData_isTarget (object ?wall)" by simp
  have h5: "sorted (map distance_i [?wall])" by simp
  from miss_and_environment_hit [of "[?floor]" True "(0, 3 / 2, 0)" "(0, - 1, 0)"] h1 h2
  have c1: "handleShoot True True (0, 3 / 2, 0) (0, - 1, 0) [?floor]
      = Some \<lparr>reported = None, removed = False, logged = MISS, hitObject = None,
              laserEnd = ray_at (0, 3 / 2, 0) (0, - 1, 0) 100\<rparr>"
    and c2: "distance (0, 3 / 2, 0) (ray_at (0, 3 / 2, 0) (0, - 1, 0) 100) = 100"
    by blast+
  from c1 have c1': "handleShoot True True (0, 3 / 2, 0) (0, - 1, 0) [?floor]
      = Some \<lparr>reported = None, removed = False, logged = MISS, hitObject = None,
              laserEnd = (0, - 197 / 2, 0)\<rparr>"
    by simp
  from miss_and_environment_hit [of "[?wall]" True "(0, 3 / 2, 0)" "(1, 0, 0)"] h3 h4
  have "\<exists>r n. handleShoot True True (0, 3 / 2, 0) (1, 0, 0) [?wall] = Some r
       \<and> reported r = None \<and> \<not> removed r \<and> logged r = HIT n
       \<and> hitObject r = Some (object ?wall) \<and> laserEnd r = point ?wall"
    by blast
  then have c3: "\<exists>r n. handleShoot True True (0, 3 / 2, 0) (1, 0, 0) [?wall] = Some r
       \<and> reported r = None \<and> logged r = HIT n \<and> laserEnd r = (10, 3 / 2, 0)"
    by auto
  from h1 c1' h2 c2 h3 h4 h5 c3 show ?thesis by blast
qed

subsection \<open>Application\<close>

lemma onHit_not_live:
  "targetId \<notin> id_t ` set (targets m) \<Longrightarrow> onHit rnd now targetId m = m"
  by (simp add: onHit_def handleTargetHit_not_live)

text \<open>
  Claim C10: the hit handler of the application adds exactly 1 to the score for every
  reported hit, whatever the manager then does with the id; when the id is not the id of
  a live target the score is still incremented while the manager is left as it was.
\<close>

theorem score_counts_stale_hits:
  "score (handleTargetHit_App rnd now targetId a) = score a + 1
   \<and> (\<forall>m. targetManagerRef a = Some m \<and> targetId \<notin> id_t ` set (targets m) \<longrightarrow>
          targetManagerRef (handleTargetHit_App rnd now targetId a) = Some m)"
  by (auto simp: handleTargetHit_App_def Let_def onHit_not_live split: option.splits)

theorem score_counts_stale_hits_witness:
  "targetManagerRef \<lparr>score = 5, hitSounds = 5, targetManagerRef =
       Some \<lparr>targets = [\<lparr>id_t = 1, position = (0, 3, 8)\<rparr>], timers = [], draws = 0\<rparr>\<rparr>
     = Some \<lparr>targets = [\<lparr>id_t = 1, position = (0, 3, 8)\<rparr>], timers = [], draws = 0\<rparr>
   \<and> 9 \<notin> id_t ` set (targets \<lparr>targets = [\<lparr>id_t = 1, position = (0, 3, 8)\<rparr>], timers = [], draws = 0\<rparr>)
   \<and> score (handleTargetHit_App (\<lambda>k. 0) 10 9
        \<lparr>score = 5, hitSounds = 5, targetManagerRef =
           Some \<lparr>targets = [\<lparr>id_t = 1, position = (0, 3, 8)\<rparr>], timers = [], draws = 0\<rparr>\<rparr>) = 6
   \<and> targetManagerRef (handleTargetHit_App (\<lambda>k. 0) 10 9
        \<lparr>score = 5, hitSounds = 5, targetManagerRef =
           Some \<lparr>targets = [\<lparr>id_t = 1, position = (0, 3, 8)\<rparr>], timers = [], draws = 0\<rparr>\<rparr>)
     = Some \<lparr>targets = [\<lparr>id_t = 1, position = (0, 3, 8)\<rparr>], timers = [], draws = 0\<rparr>"
  using score_counts_stale_hits [of "\<lambda>k. 0" 10 9
      "\<lparr>score = 5, hitSounds = 5, targetManagerRef =
           Some \<lparr>targets = [\<lparr>id_t = 1, position = (0, 3, 8)\<rparr>], timers = [], draws = 0\<rparr>\<rparr>"]
  by simp

end
